theory Spec2Isabelle
  imports Main "HOL-Library.Word"
begin

section \<open>JavaScript strings\<close>

text \<open>
  A JavaScript string is a sequence of UTF-16 code units. Document contents and URLs are
  modelled as such, because \<open>String.prototype.trim\<close> removes code units above the
  ASCII range too. Fixed messages of the program are ASCII and are kept as \<open>string\<close>.
\<close>

type_synonym js_string = "16 word list"

text \<open>The WhiteSpace and LineTerminator code units of ECMAScript, which \<open>trim\<close> strips.\<close>

definition isWhiteSpace :: "16 word \<Rightarrow> bool" where
  "isWhiteSpace c =
     (c \<in> {0x0009, 0x000A, 0x000B, 0x000C, 0x000D, 0x0020, 0x00A0, 0x1680,
            0x2000, 0x2001, 0x2002, 0x2003, 0x2004, 0x2005, 0x2006, 0x2007,
            0x2008, 0x2009, 0x200A, 0x2028, 0x2029, 0x202F, 0x205F, 0x3000, 0xFEFF})"

definition trim :: "js_string \<Rightarrow> js_string" where
  "trim s = rev (dropWhile isWhiteSpace (rev (dropWhile isWhiteSpace s)))"

text \<open>\<open>s.split(sep)\<close> for a one-unit separator: the empty string splits into one empty piece.\<close>

fun split :: "16 word \<Rightarrow> js_string \<Rightarrow> js_string list" where
  "split sep [] = [[]]"
| "split sep (c # cs) =
     (if c = sep then [] # split sep cs
      else (case split sep cs of
              [] \<Rightarrow> [[c]]
            | r # rs \<Rightarrow> (c # r) # rs))"

text \<open>\<open>xs.slice(-k)\<close>: the last \<open>k\<close> elements, the whole array when it is shorter.\<close>

definition slice_neg :: "nat \<Rightarrow> 'a list \<Rightarrow> 'a list" where
  "slice_neg k xs = drop (length xs - k) xs"

section \<open>Entities\<close>

text \<open>
  \<open>Document\<close> of \<open>lib/entities\<close>: \<open>content\<close> is a string, \<open>metadata.sourceURL\<close> is
  optional (the code guards its use). A thrown JavaScript error is kept by its message.
  The field \<open>pageOptions\<close> of a job is handed to the provider as it is and read nowhere
  in the two files; the model leaves it out.
\<close>

record Metadata =
  sourceURL :: "js_string option"

record Document =
  content :: js_string
  metadata :: Metadata

record Progress =
  current :: nat
  total :: nat
  currentDocument :: "Document option"

datatype js_error = Error (error_message: string)

text \<open>
  The elements of \<open>filteredDocs\<close>: a whole document, a \<open>{url}\<close> object, or
  \<open>undefined\<close> (what an arrow function without a \<open>return\<close> yields).
\<close>

datatype result_entry = DocEntry Document | UrlEntry js_string | Undefined

record CrawlerOptions =
  returnOnlyUrls :: bool

record WebScraperOptions =
  url :: js_string
  mode :: string
  crawlerOptions :: CrawlerOptions
  team_id :: string

record RunWebScraperResult =
  success :: bool
  message :: string
  docs :: "result_entry list"

text \<open>The options handed to \<open>WebScraperDataProvider.setOptions\<close>.\<close>

record ProviderOptions =
  po_mode :: string
  po_urls :: "js_string list"
  po_crawlerOptions :: CrawlerOptions
  po_bullJobId :: "string option"

section \<open>The queue job\<close>

datatype job_state = Waiting | Active | Completed | Failed

record JobProgress =
  jp_current :: nat
  jp_total :: nat
  jp_currentDocument :: "Document option"
  jp_partialDocs :: "Document list"

text \<open>
  A Bull job as the program uses it: its id, its payload, its state, the return value
  written by \<open>moveToCompleted\<close> (\<open>None\<close> is JavaScript's \<open>null\<close>), the failure reason
  written by \<open>moveToFailed\<close>, the last progress written by \<open>job.progress\<close>, and the
  \<open>finishedOn\<close> timestamp in milliseconds (absent until the job finishes).
\<close>

record BullJob =
  jobId :: string
  jobData :: WebScraperOptions
  jobState :: job_state
  returnvalue :: "result_entry list option"
  failedReason :: "string option"
  jobProgress :: "JobProgress option"
  finishedOn :: "int option"

section \<open>Collaborators\<close>

text \<open>
  Everything outside the two source files is a parameter: what the crawl pipeline does
  for given options (it may throw; it emits progress events before it finishes), what
  \<open>billTeam\<close> answers (it may throw; otherwise the \<open>success\<close> flag of its result),
  the environment variable, the outcome of the database update (an error message or
  none), and whether the queue store accepts the two state transitions.
\<close>

record Env =
  setOptions :: "ProviderOptions \<Rightarrow> js_error option"
  getDocuments :: "ProviderOptions \<Rightarrow> Progress list \<times> (js_error + Document list)"
  billTeam :: "string \<Rightarrow> nat \<Rightarrow> js_error + bool"
  USE_DB_AUTHENTICATION :: "string option"
  supabase_update :: "string \<Rightarrow> result_entry list \<Rightarrow> string option"
  moveToCompleted_throws :: bool
  moveToFailed_throws :: bool

text \<open>The calls made on collaborators and callbacks, in program order.\<close>

datatype effect =
    CallSetOptions ProviderOptions
  | CallGetDocuments ProviderOptions
  | CallJobProgress JobProgress
  | CallBillTeam string nat
  | CallOnSuccess "result_entry list"
  | CallOnError js_error
  | ConsoleError string
  | CallSupabaseUpdate string "result_entry list"
  | CallMoveToCompleted "result_entry list option"
  | CallMoveToFailed js_error

text \<open>
  The state one job execution works on: the job record, the closure variable
  \<open>partialDocs\<close> of \<open>startWebScraperPipeline\<close>, and the calls made so far.
\<close>

record World =
  job :: BullJob
  partialDocs :: "Document list"
  calls :: "effect list"

definition emit :: "effect \<Rightarrow> World \<Rightarrow> World" where
  "emit e w = w\<lparr>calls := calls w @ [e]\<rparr>"

section \<open>runWebScraper.ts\<close>

record RunWebScraperParams =
  p_url :: js_string
  p_mode :: string
  p_crawlerOptions :: CrawlerOptions
  p_inProgress :: "Progress \<Rightarrow> World \<Rightarrow> World"
  p_onSuccess :: "result_entry list \<Rightarrow> World \<Rightarrow> World"
  p_onError :: "js_error \<Rightarrow> World \<Rightarrow> World"
  p_team_id :: string
  p_bull_job_id :: string

text \<open>Lines 57 to 72: the options of the provider, by mode.\<close>

definition providerOptions :: "RunWebScraperParams \<Rightarrow> ProviderOptions" where
  "providerOptions p =
     (if p_mode p = ''crawl''
      then \<lparr>po_mode = p_mode p, po_urls = [p_url p],
            po_crawlerOptions = p_crawlerOptions p, po_bullJobId = Some (p_bull_job_id p)\<rparr>
      else \<lparr>po_mode = p_mode p, po_urls = split 0x2C (p_url p),
            po_crawlerOptions = p_crawlerOptions p, po_bullJobId = None\<rparr>)"

text \<open>Lines 87 to 91: the callback of \<open>docs.map\<close>; an empty string is falsy.\<close>

definition toUrlEntry :: "Document \<Rightarrow> result_entry" where
  "toUrlEntry doc =
     (case sourceURL (metadata doc) of
        None \<Rightarrow> Undefined
      | Some u \<Rightarrow> (if u = [] then Undefined else UrlEntry u))"

text \<open>Lines 86 to 92: \<open>filteredDocs\<close>.\<close>

definition filterDocs :: "CrawlerOptions \<Rightarrow> Document list \<Rightarrow> result_entry list" where
  "filterDocs co ds =
     (if returnOnlyUrls co then map toUrlEntry ds
      else map DocEntry (filter (\<lambda>doc. length (trim (content doc)) > 0) ds))"

text \<open>Lines 110 to 114: the \<open>catch\<close> block.\<close>

definition catch_block ::
  "RunWebScraperParams \<Rightarrow> js_error \<Rightarrow> World \<Rightarrow> RunWebScraperResult \<times> World" where
  "catch_block p e w =
     (\<lparr>success = False, message = error_message e, docs = []\<rparr>,
      p_onError p e (emit (CallOnError e) (emit (ConsoleError ''Error running web scraper'') w)))"

text \<open>
  Lines 44 to 115. The progress events of the pipeline reach \<open>inProgress\<close> in the order
  of emission, all of them before \<open>getDocuments\<close> returns or throws.
\<close>

definition runWebScraper ::
  "Env \<Rightarrow> RunWebScraperParams \<Rightarrow> World \<Rightarrow> RunWebScraperResult \<times> World" where
  "runWebScraper env p w =
     (let opts = providerOptions p;
          w1 = emit (CallSetOptions opts) w
      in case setOptions env opts of
           Some e \<Rightarrow> catch_block p e w1
         | None \<Rightarrow>
            (let w2 = fold (p_inProgress p) (fst (getDocuments env opts))
                        (emit (CallGetDocuments opts) w1)
             in case snd (getDocuments env opts) of
                  Inl e \<Rightarrow> catch_block p e w2
                | Inr ds \<Rightarrow>
                   (if length ds = 0
                    then (\<lparr>success = True, message = ''No pages found'', docs = []\<rparr>, w2)
                    else
                      (let filteredDocs = filterDocs (p_crawlerOptions p) ds;
                           w3 = emit (CallBillTeam (p_team_id p) (length filteredDocs)) w2
                       in case billTeam env (p_team_id p) (length filteredDocs) of
                            Inl e \<Rightarrow> catch_block p e w3
                          | Inr ok \<Rightarrow>
                             (if \<not> ok
                              then (\<lparr>success = False,
                                     message = ''Failed to bill team, no subscription was found'',
                                     docs = []\<rparr>, w3)
                              else (\<lparr>success = True, message = '''', docs = filteredDocs\<rparr>,
                                    p_onSuccess p filteredDocs
                                      (emit (CallOnSuccess filteredDocs) w3)))))))"

text \<open>
  \<open>job.moveToCompleted\<close> and \<open>job.moveToFailed\<close> of the queue library: when the store
  accepts the transition the job record changes, otherwise the call throws and the
  record stays as it is.
\<close>

definition moveToCompleted ::
  "Env \<Rightarrow> result_entry list option \<Rightarrow> BullJob \<Rightarrow> js_error + BullJob" where
  "moveToCompleted env rv j =
     (if moveToCompleted_throws env then Inl (Error ''Missing lock or job'')
      else Inr (j\<lparr>jobState := Completed, returnvalue := rv\<rparr>))"

definition moveToFailed :: "Env \<Rightarrow> js_error \<Rightarrow> BullJob \<Rightarrow> js_error + BullJob" where
  "moveToFailed env e j =
     (if moveToFailed_throws env then Inl (Error ''Missing lock or job'')
      else Inr (j\<lparr>jobState := Failed, failedReason := Some (error_message e)\<rparr>))"

text \<open>
  Lines 117 to 141: \<open>saveJob\<close>. A failed database update is thrown, caught by the outer
  \<open>catch\<close> and logged, and the job is not moved; an exception of \<open>moveToCompleted\<close> is
  swallowed by the inner \<open>catch\<close>.
\<close>

definition saveJob :: "Env \<Rightarrow> result_entry list \<Rightarrow> World \<Rightarrow> World" where
  "saveJob env result w =
     (if USE_DB_AUTHENTICATION env = Some ''true''
      then
        (let w1 = emit (CallSupabaseUpdate (jobId (job w)) result) w
         in case supabase_update env (jobId (job w)) result of
              Some err \<Rightarrow> emit (ConsoleError ''Failed to update job status:'') w1
            | None \<Rightarrow>
               (let w2 = emit (CallMoveToCompleted None) w1
                in case moveToCompleted env None (job w2) of
                     Inl e \<Rightarrow> w2
                   | Inr j \<Rightarrow> w2\<lparr>job := j\<rparr>))
      else
        (let w1 = emit (CallMoveToCompleted (Some result)) w
         in case moveToCompleted env (Some result) (job w1) of
              Inl e \<Rightarrow> w1
            | Inr j \<Rightarrow> w1\<lparr>job := j\<rparr>))"

text \<open>Lines 25 to 33: the \<open>inProgress\<close> callback of \<open>startWebScraperPipeline\<close>.\<close>

definition inProgress :: "Progress \<Rightarrow> World \<Rightarrow> World" where
  "inProgress progress w =
     (case currentDocument progress of
        None \<Rightarrow> w
      | Some d \<Rightarrow>
         (let pushed = partialDocs w @ [d];
              pd = (if length pushed > 50 then slice_neg 50 pushed else pushed);
              jp = \<lparr>jp_current = current progress, jp_total = total progress,
                    jp_currentDocument = currentDocument progress, jp_partialDocs = pd\<rparr>
          in emit (CallJobProgress jp)
               (w\<lparr>partialDocs := pd, job := (job w)\<lparr>jobProgress := Some jp\<rparr>\<rparr>)))"

text \<open>Lines 37 to 39: the \<open>onError\<close> callback; a rejection of the promise is not handled.\<close>

definition onError :: "Env \<Rightarrow> js_error \<Rightarrow> World \<Rightarrow> World" where
  "onError env e w =
     (let w1 = emit (CallMoveToFailed e) w
      in case moveToFailed env e (job w1) of
           Inl x \<Rightarrow> w1
         | Inr j \<Rightarrow> w1\<lparr>job := j\<rparr>)"

text \<open>
  Lines 14 to 43. The promises of \<open>saveJob\<close>, \<open>job.progress\<close> and \<open>job.moveToFailed\<close>
  are not awaited by the program; the model applies their effect at the call.
\<close>

definition pipelineParams :: "Env \<Rightarrow> BullJob \<Rightarrow> RunWebScraperParams" where
  "pipelineParams env j =
     \<lparr>p_url = url (jobData j), p_mode = mode (jobData j),
      p_crawlerOptions = crawlerOptions (jobData j),
      p_inProgress = inProgress,
      p_onSuccess = saveJob env,
      p_onError = onError env,
      p_team_id = team_id (jobData j),
      p_bull_job_id = jobId j\<rparr>"

definition startWebScraperPipeline :: "Env \<Rightarrow> BullJob \<Rightarrow> RunWebScraperResult \<times> World" where
  "startWebScraperPipeline env j =
     runWebScraper env (pipelineParams env j) \<lparr>job = j, partialDocs = [], calls = []\<rparr>"

section \<open>Classifying the calls\<close>

text \<open>
  Every call belongs to one of three phases of a job execution: the crawl (setting the
  options, fetching the documents, writing progress), the billing, and what comes after
  it (the callbacks \<open>onSuccess\<close> and \<open>onError\<close>, logging, the database
  update and the two state transitions).
\<close>

fun is_billTeam :: "effect \<Rightarrow> bool" where
  "is_billTeam (CallBillTeam t n) = True"
| "is_billTeam e = False"

fun phase :: "effect \<Rightarrow> nat" where
  "phase (CallSetOptions opts) = 0"
| "phase (CallGetDocuments opts) = 0"
| "phase (CallJobProgress jp) = 0"
| "phase (CallBillTeam t n) = 1"
| "phase e = 2"

text \<open>
  The calls of \<open>billTeam\<close> one execution is expected to make, read off the outcome of
  the crawl: none when the pipeline throws or returns no document, one otherwise, with
  the number of filtered documents.
\<close>

definition billing_calls :: "Env \<Rightarrow> BullJob \<Rightarrow> effect list" where
  "billing_calls env j =
     (case setOptions env (providerOptions (pipelineParams env j)) of
        Some e \<Rightarrow> []
      | None \<Rightarrow>
         (case snd (getDocuments env (providerOptions (pipelineParams env j))) of
            Inl e \<Rightarrow> []
          | Inr ds \<Rightarrow>
             (if ds = [] then []
              else [CallBillTeam (team_id (jobData j))
                      (length (filterDocs (crawlerOptions (jobData j)) ds))])))"

section \<open>index.ts: the cluster master\<close>

text \<open>
  The \<open>exit\<close> event of the cluster module: the worker, its exit code (\<open>null\<close> when the
  worker was ended by a signal) and the signal (\<open>null\<close> when it exited by itself).
\<close>

record ExitEvent =
  worker_pid :: nat
  exit_code :: "int option"
  exit_signal :: "string option"

datatype master_effect = Fork | MasterLog string

text \<open>Line 19.\<close>

definition numCPUs :: "string option \<Rightarrow> nat \<Rightarrow> nat" where
  "numCPUs ENV cpus = (if ENV = Some ''local'' then 2 else cpus)"

text \<open>Lines 23 to 28: the master logs and forks one worker per CPU.\<close>

definition master_start :: "string option \<Rightarrow> nat \<Rightarrow> master_effect list" where
  "master_start ENV cpus = MasterLog ''Master is running'' # replicate (numCPUs ENV cpus) Fork"

text \<open>Lines 30 to 36: the handler of \<open>exit\<close>, appending to what the master did so far.\<close>

definition on_exit :: "ExitEvent \<Rightarrow> master_effect list \<Rightarrow> master_effect list" where
  "on_exit ev done_so_far =
     (if exit_code ev \<noteq> None
      then done_so_far @ [MasterLog ''Worker exited'', MasterLog ''Starting a new worker'', Fork]
      else done_so_far)"

definition forks :: "master_effect list \<Rightarrow> nat" where
  "forks effs = length (filter (\<lambda>e. e = Fork) effs)"

section \<open>index.ts: the admin endpoints\<close>

datatype reclaim_step = DelLock | TakeLock | MoveToFailed | Remove

text \<open>
  The queue as the two handlers see it. \<open>getActive\<close> and \<open>getJobs\<close> may reject;
  \<open>reclaim_throws\<close> names the first of the four calls on a job that throws, if any;
  \<open>remove_throws\<close> tells whether the \<open>k\<close>-th removal of the cleanup throws;
  \<open>date_now\<close> is what the \<open>k\<close>-th call of \<open>Date.now()\<close> returns, in milliseconds.
\<close>

record QueueEnv =
  getActive :: "js_error + BullJob list"
  reclaim_throws :: "BullJob \<Rightarrow> reclaim_step option"
  addBulk :: "(WebScraperOptions \<times> string) list \<Rightarrow> js_error option"
  resume :: "js_error option"
  getJobs :: "job_state list \<Rightarrow> nat \<Rightarrow> nat \<Rightarrow> bool \<Rightarrow> js_error + BullJob list"
  remove_throws :: "nat \<Rightarrow> BullJob \<Rightarrow> bool"
  date_now :: "nat \<Rightarrow> int"

datatype queue_effect =
    ClientDelLock string
  | CallTakeLock string
  | CallJobMoveToFailed string string
  | CallRemove string
  | ConsoleWarn string
  | CallAddBulk "(WebScraperOptions \<times> string) list"
  | CallResume

datatype http_response = Json_ok | Status500 string | Status200 string nat

text \<open>The call a step makes on the job with the given id.\<close>

fun step_call :: "reclaim_step \<Rightarrow> string \<Rightarrow> queue_effect" where
  "step_call DelLock i = ClientDelLock i"
| "step_call TakeLock i = CallTakeLock i"
| "step_call MoveToFailed i = CallJobMoveToFailed i ''interrupted''"
| "step_call Remove i = CallRemove i"

text \<open>
  Lines 148 to 155: the calls of the \<open>try\<close> block in order; the one that throws ends the
  block, and the \<open>catch\<close> logs a warning.
\<close>

fun run_steps :: "reclaim_step option \<Rightarrow> string \<Rightarrow> reclaim_step list \<Rightarrow> queue_effect list" where
  "run_steps thr i [] = []"
| "run_steps thr i (s # ss) =
     step_call s i # (if thr = Some s then [ConsoleWarn i] else run_steps thr i ss)"

definition reclaim :: "QueueEnv \<Rightarrow> BullJob \<Rightarrow> queue_effect list" where
  "reclaim env x = run_steps (reclaim_throws env x) (jobId x) [DelLock, TakeLock, MoveToFailed, Remove]"

text \<open>
  Lines 136 to 175: the handler of \<open>/unpause\<close>. The promises of \<open>Promise.all\<close> run
  interleaved; the model lists the calls job by job, which keeps the order of the calls
  on each single job.
\<close>

definition unpause :: "QueueEnv \<Rightarrow> http_response \<times> queue_effect list" where
  "unpause env =
     (case getActive env of
        Inl e \<Rightarrow> (Status500 (error_message e), [])
      | Inr jobs \<Rightarrow>
         (let requeue = map (\<lambda>x. (jobData x, jobId x)) jobs;
              effs = (if length jobs > 0
                      then concat (map (reclaim env) jobs) @ [CallAddBulk requeue]
                      else [])
          in case (if length jobs > 0 then addBulk env requeue else None) of
               Some e \<Rightarrow> (Status500 (error_message e), effs)
             | None \<Rightarrow>
                (case resume env of
                   Some e \<Rightarrow> (Status500 (error_message e), effs @ [CallResume])
                 | None \<Rightarrow> (Json_ok, effs @ [CallResume]))))"

text \<open>The job a call is made on.\<close>

fun effect_job :: "queue_effect \<Rightarrow> string option" where
  "effect_job (ClientDelLock i) = Some i"
| "effect_job (CallTakeLock i) = Some i"
| "effect_job (CallJobMoveToFailed i m) = Some i"
| "effect_job (CallRemove i) = Some i"
| "effect_job (ConsoleWarn i) = Some i"
| "effect_job (CallAddBulk js) = None"
| "effect_job CallResume = None"

text \<open>\<open>Promise.all\<close> followed by \<open>flat()\<close>: any rejection rejects the whole.\<close>

fun all_flat :: "(js_error + 'a list) list \<Rightarrow> js_error + 'a list" where
  "all_flat [] = Inr []"
| "all_flat (Inl e # rs) = Inl e"
| "all_flat (Inr xs # rs) = (case all_flat rs of Inl e \<Rightarrow> Inl e | Inr ys \<Rightarrow> Inr (xs @ ys))"

text \<open>
  Lines 279 to 281: the filter; \<open>Date.now()\<close> is read once per job, and a comparison
  with an absent \<open>finishedOn\<close> is false.
\<close>

fun before24h :: "(nat \<Rightarrow> int) \<Rightarrow> nat \<Rightarrow> BullJob list \<Rightarrow> BullJob list" where
  "before24h now k [] = []"
| "before24h now k (j # js) =
     (if (case finishedOn j of None \<Rightarrow> False | Some t \<Rightarrow> t < now k - 24 * 60 * 60 * 1000)
      then j # before24h now (Suc k) js
      else before24h now (Suc k) js)"

text \<open>
  Lines 289 to 296: the removal loop, returning \<open>count\<close> and the jobs removed; a
  removal that throws is logged and the loop goes on.
\<close>

fun remove_loop :: "(nat \<Rightarrow> BullJob \<Rightarrow> bool) \<Rightarrow> nat \<Rightarrow> BullJob list \<Rightarrow> nat \<times> BullJob list" where
  "remove_loop thr k [] = (0, [])"
| "remove_loop thr k (j # js) =
     (if thr k j then remove_loop thr (Suc k) js
      else (Suc (fst (remove_loop thr (Suc k) js)), j # snd (remove_loop thr (Suc k) js)))"

text \<open>
  Lines 262 to 303: the handler of \<open>/clean-before-24h-complete-jobs\<close>. The branch
  \<open>!before24hJobs\<close> cannot be taken, an array being truthy.
\<close>

definition clean_before_24h_complete_jobs :: "QueueEnv \<Rightarrow> http_response \<times> BullJob list" where
  "clean_before_24h_complete_jobs env =
     (let batchSize = 10; numberOfBatches = 9
      in case all_flat (map (\<lambda>i. getJobs env [Completed] (i * batchSize)
                                    (i * batchSize + batchSize) True) [0..<numberOfBatches]) of
           Inl e \<Rightarrow> (Status500 ''Failed to clean jobs'', [])
         | Inr completedJobs \<Rightarrow>
            (let before24hJobs = before24h (date_now env) 0 completedJobs;
                 r = remove_loop (remove_throws env) 0 before24hJobs
             in (Status200 ''Removed completed jobs'' (fst r), snd r)))"

section \<open>Example values\<close>

text \<open>
  A page with content \<open>"hi"\<close> and source URL \<open>"a"\<close>, a page with blank content
  and no source URL, a page with blank content and source URL \<open>"b"\<close>, a job in state \<open>active\<close>, and collaborators that return the given
  documents without progress events.
\<close>

definition doc_page :: Document where
  "doc_page = \<lparr>content = [0x68, 0x69], metadata = \<lparr>sourceURL = Some [0x61]\<rparr>\<rparr>"

definition doc_blank :: Document where
  "doc_blank = \<lparr>content = [0x20, 0x0A], metadata = \<lparr>sourceURL = None\<rparr>\<rparr>"


definition example_job :: "bool \<Rightarrow> BullJob" where
  "example_job only_urls =
     \<lparr>jobId = ''1'',
      jobData = \<lparr>url = [0x61], mode = ''single_urls'',
                 crawlerOptions = \<lparr>returnOnlyUrls = only_urls\<rparr>, team_id = ''team''\<rparr>,
      jobState = Active, returnvalue = None, failedReason = None, jobProgress = None,
      finishedOn = None\<rparr>"

definition example_env :: "Document list \<Rightarrow> bool \<Rightarrow> string option \<Rightarrow> Env" where
  "example_env ds ok db =
     \<lparr>setOptions = (\<lambda>opts. None), getDocuments = (\<lambda>opts. ([], Inr ds)),
      billTeam = (\<lambda>t n. Inr ok), USE_DB_AUTHENTICATION = db,
      supabase_update = (\<lambda>i r. None), moveToCompleted_throws = False,
      moveToFailed_throws = False\<rparr>"

definition numbered_doc :: "nat \<Rightarrow> Document" where
  "numbered_doc i = \<lparr>content = [of_nat i], metadata = \<lparr>sourceURL = None\<rparr>\<rparr>"

definition numbered_progress :: "nat \<Rightarrow> Progress" where
  "numbered_progress i = \<lparr>current = i, total = 51, currentDocument = Some (numbered_doc i)\<rparr>"

definition queue_job :: "string \<Rightarrow> int option \<Rightarrow> BullJob" where
  "queue_job i fin =
     \<lparr>jobId = i,
      jobData = \<lparr>url = [0x61], mode = ''crawl'',
                 crawlerOptions = \<lparr>returnOnlyUrls = False\<rparr>, team_id = ''team''\<rparr>,
      jobState = (if fin = None then Active else Completed),
      returnvalue = None, failedReason = None, jobProgress = None, finishedOn = fin\<rparr>"

definition example_queue :: QueueEnv where
  "example_queue =
     \<lparr>getActive = Inr [queue_job ''a'' None, queue_job ''b'' None],
      reclaim_throws = (\<lambda>x. if jobId x = ''a'' then Some TakeLock else None),
      addBulk = (\<lambda>js. None),
      resume = None,
      getJobs = (\<lambda>types start end asc.
         if start = 0
         then Inr [queue_job ''old'' (Some (1700000000000 - 86400001)),
                   queue_job ''edge'' (Some (1700000000000 - 86400000)),
                   queue_job ''recent'' (Some (1700000000000 - 86340000))]
         else Inr []),
      remove_throws = (\<lambda>k j. False),
      date_now = (\<lambda>k. 1700000000000)\<rparr>"

section \<open>Facts about strings and arrays\<close>

lemma slice_neg_short: "length xs \<le> k \<Longrightarrow> slice_neg k xs = xs"
  by (simp add: slice_neg_def)

lemma length_slice_neg: "length (slice_neg k xs) = min k (length xs)"
  by (simp add: slice_neg_def)

lemma slice_neg_append: "slice_neg k (slice_neg k xs @ ys) = slice_neg k (xs @ ys)"
proof (cases "length xs \<le> k")
  case True
  then show ?thesis by (simp add: slice_neg_def)
next
  case False
  then have "length xs + length ys - k = (length xs - k) + length ys" by arith
  with False show ?thesis by (simp add: slice_neg_def add.commute)
qed


lemma sorted_map_const: "\<forall>x\<in>set xs. f x = (c::nat) \<Longrightarrow> sorted (map f xs)"
  by (induction xs) auto

section \<open>Facts about the callbacks\<close>

lemma job_emit: "job (emit e w) = job w" and partialDocs_emit: "partialDocs (emit e w) = partialDocs w"
  and calls_emit: "calls (emit e w) = calls w @ [e]"
  by (simp_all add: emit_def)

lemma partialDocs_inProgress:
  "partialDocs (inProgress pr w) =
     (case currentDocument pr of
        None \<Rightarrow> partialDocs w
      | Some d \<Rightarrow> slice_neg 50 (partialDocs w @ [d]))"
proof (cases "currentDocument pr")
  case None
  then show ?thesis by (simp add: inProgress_def)
next
  case (Some d)
  show ?thesis
  proof (cases "50 < length (partialDocs w @ [d])")
    case True
    with Some show ?thesis by (simp add: inProgress_def Let_def emit_def)
  next
    case False
    then have "slice_neg 50 (partialDocs w @ [d]) = partialDocs w @ [d]"
      by (intro slice_neg_short) simp
    with False Some show ?thesis by (simp add: inProgress_def Let_def emit_def)
  qed
qed

lemma partialDocs_fold_inProgress:
  "length (partialDocs w) \<le> 50 \<Longrightarrow>
   partialDocs (fold inProgress evs w) =
     slice_neg 50 (partialDocs w @ List.map_filter currentDocument evs)"
proof (induction evs arbitrary: w)
  case Nil
  then show ?case by (simp add: slice_neg_short)
next
  case (Cons ev evs)
  show ?case
  proof (cases "currentDocument ev")
    case None
    with Cons show ?thesis
      by (simp add: partialDocs_inProgress)
  next
    case (Some d)
    have len: "length (partialDocs (inProgress ev w)) \<le> 50"
      using Some by (simp add: partialDocs_inProgress length_slice_neg)
    have "partialDocs (fold inProgress evs (inProgress ev w))
        = slice_neg 50 (slice_neg 50 (partialDocs w @ [d]) @ List.map_filter currentDocument evs)"
      using Cons.IH [OF len] Some by (simp add: partialDocs_inProgress)
    also have "\<dots> = slice_neg 50 ((partialDocs w @ [d]) @ List.map_filter currentDocument evs)"
      by (rule slice_neg_append)
    finally show ?thesis using Some by simp
  qed
qed

lemma job_inProgress:
  "jobState (job (inProgress pr w)) = jobState (job w)
   \<and> returnvalue (job (inProgress pr w)) = returnvalue (job w)
   \<and> failedReason (job (inProgress pr w)) = failedReason (job w)
   \<and> jobId (job (inProgress pr w)) = jobId (job w)"
  by (simp add: inProgress_def Let_def emit_def split: option.split)

lemma job_fold_inProgress:
  "jobState (job (fold inProgress evs w)) = jobState (job w)
   \<and> returnvalue (job (fold inProgress evs w)) = returnvalue (job w)
   \<and> failedReason (job (fold inProgress evs w)) = failedReason (job w)
   \<and> jobId (job (fold inProgress evs w)) = jobId (job w)"
  by (induction evs arbitrary: w) (simp_all add: job_inProgress)

lemma calls_inProgress:
  "\<exists>ps. calls (inProgress pr w) = calls w @ ps \<and> (\<forall>e\<in>set ps. phase e = 0)"
  by (cases "currentDocument pr") (simp_all add: inProgress_def Let_def emit_def)

lemma calls_fold_inProgress:
  "\<exists>ps. calls (fold inProgress evs w) = calls w @ ps \<and> (\<forall>e\<in>set ps. phase e = 0)"
proof (induction evs arbitrary: w)
  case Nil
  show ?case by simp
next
  case (Cons ev evs)
  obtain ps where ps: "calls (inProgress ev w) = calls w @ ps" "\<forall>e\<in>set ps. phase e = 0"
    using calls_inProgress by blast
  obtain qs where qs: "calls (fold inProgress evs (inProgress ev w)) = calls (inProgress ev w) @ qs"
      "\<forall>e\<in>set qs. phase e = 0"
    using Cons.IH by blast
  have "calls (fold inProgress (ev # evs) w) = calls w @ (ps @ qs)"
    using ps qs by simp
  moreover have "\<forall>e\<in>set (ps @ qs). phase e = 0" using ps qs by auto
  ultimately show ?case by blast
qed

lemma calls_saveJob:
  "\<exists>qs. calls (saveJob env r w) = calls w @ qs \<and> (\<forall>e\<in>set qs. phase e = 2)"
  by (auto simp add: saveJob_def Let_def emit_def moveToCompleted_def split: option.split)

lemma calls_onError:
  "\<exists>qs. calls (onError env e w) = calls w @ qs \<and> (\<forall>e\<in>set qs. phase e = 2)"
  by (auto simp add: onError_def Let_def emit_def moveToFailed_def)

lemma pipelineParams_simps:
  "p_team_id (pipelineParams env j) = team_id (jobData j)"
  "p_crawlerOptions (pipelineParams env j) = crawlerOptions (jobData j)"
  "p_inProgress (pipelineParams env j) = inProgress"
  "p_onSuccess (pipelineParams env j) = saveJob env"
  "p_onError (pipelineParams env j) = onError env"
  by (simp_all add: pipelineParams_def)

lemma calls_catch_block:
  "\<exists>qs. calls (snd (catch_block (pipelineParams env j) e w)) = calls w @ qs
        \<and> (\<forall>x\<in>set qs. phase x = 2)"
proof -
  let ?w' = "emit (CallOnError e) (emit (ConsoleError ''Error running web scraper'') w)"
  obtain qs where qs: "calls (onError env e ?w') = calls ?w' @ qs" "\<forall>x\<in>set qs. phase x = 2"
    using calls_onError by blast
  have "calls (snd (catch_block (pipelineParams env j) e w))
      = calls w @ ([ConsoleError ''Error running web scraper'', CallOnError e] @ qs)"
    using qs by (simp add: catch_block_def pipelineParams_simps calls_emit)
  moreover have "\<forall>x\<in>set ([ConsoleError ''Error running web scraper'', CallOnError e] @ qs). phase x = 2"
    using qs by simp
  ultimately show ?thesis by blast
qed

lemma is_billTeam_phase: "is_billTeam e \<longleftrightarrow> phase e = 1"
  by (cases e) simp_all

lemma pipeline_calls:
  "\<exists>ps qs. calls (snd (startWebScraperPipeline env j)) = ps @ billing_calls env j @ qs
      \<and> (\<forall>x\<in>set ps. phase x = 0) \<and> (\<forall>x\<in>set qs. phase x = 2)"
proof -
  let ?p = "pipelineParams env j"
  let ?opts = "providerOptions ?p"
  let ?w0 = "emit (CallSetOptions ?opts) \<lparr>job = j, partialDocs = [], calls = []\<rparr>"
  let ?w1 = "emit (CallGetDocuments ?opts) ?w0"
  let ?w2 = "fold inProgress (fst (getDocuments env ?opts)) ?w1"
  obtain ps where ps: "calls ?w2 = calls ?w1 @ ps" "\<forall>x\<in>set ps. phase x = 0"
    using calls_fold_inProgress by blast
  let ?pre = "[CallSetOptions ?opts, CallGetDocuments ?opts] @ ps"
  have w2: "calls ?w2 = ?pre" using ps by (simp add: calls_emit)
  have pre0: "\<forall>x\<in>set ?pre. phase x = 0" using ps by simp
  show ?thesis
  proof (cases "setOptions env ?opts")
    case (Some e)
    then have run: "snd (startWebScraperPipeline env j) = snd (catch_block ?p e ?w0)"
      by (simp add: startWebScraperPipeline_def runWebScraper_def Let_def)
    obtain qs where qs: "calls (snd (catch_block ?p e ?w0)) = calls ?w0 @ qs"
        "\<forall>x\<in>set qs. phase x = 2"
      using calls_catch_block by blast
    have "calls (snd (startWebScraperPipeline env j)) = [CallSetOptions ?opts] @ billing_calls env j @ qs"
      using Some qs by (simp add: run billing_calls_def calls_emit)
    moreover have "\<forall>x\<in>set [CallSetOptions ?opts]. phase x = 0" by simp
    ultimately show ?thesis using qs(2) by blast
  next
    case None
    show ?thesis
    proof (cases "snd (getDocuments env ?opts)")
      case (Inl e)
      then have run: "snd (startWebScraperPipeline env j) = snd (catch_block ?p e ?w2)"
        using None
        by (simp add: startWebScraperPipeline_def runWebScraper_def Let_def pipelineParams_simps)
      obtain qs where qs: "calls (snd (catch_block ?p e ?w2)) = calls ?w2 @ qs"
          "\<forall>x\<in>set qs. phase x = 2"
        using calls_catch_block by blast
      have "calls (snd (startWebScraperPipeline env j)) = ?pre @ billing_calls env j @ qs"
        using None Inl qs w2 by (simp add: run billing_calls_def)
      then show ?thesis using pre0 qs(2) by blast
    next
      case (Inr ds)
      show ?thesis
      proof (cases "ds = []")
        case True
        then have run: "snd (startWebScraperPipeline env j) = ?w2"
          using None Inr
          by (simp add: startWebScraperPipeline_def runWebScraper_def Let_def pipelineParams_simps)
        have "calls (snd (startWebScraperPipeline env j)) = ?pre @ billing_calls env j @ []"
          using None Inr True w2 by (simp add: run billing_calls_def)
        moreover have "\<forall>x\<in>set ([]::effect list). phase x = 2" by simp
        ultimately show ?thesis using pre0 by blast
      next
        case False
        let ?fd = "filterDocs (crawlerOptions (jobData j)) ds"
        let ?b = "CallBillTeam (team_id (jobData j)) (length ?fd)"
        let ?w3 = "emit ?b ?w2"
        have bc: "billing_calls env j = [?b]"
          using None Inr False by (simp add: billing_calls_def)
        have w3: "calls ?w3 = ?pre @ [?b]" using w2 by (simp add: calls_emit)
        show ?thesis
        proof (cases "billTeam env (team_id (jobData j)) (length ?fd)")
          case (Inl e)
          then have run: "snd (startWebScraperPipeline env j) = snd (catch_block ?p e ?w3)"
            using None Inr False
            by (simp add: startWebScraperPipeline_def runWebScraper_def Let_def pipelineParams_simps)
          obtain qs where qs: "calls (snd (catch_block ?p e ?w3)) = calls ?w3 @ qs"
              "\<forall>x\<in>set qs. phase x = 2"
            using calls_catch_block by blast
          have "calls (snd (startWebScraperPipeline env j)) = ?pre @ billing_calls env j @ qs"
            using qs(1) w3 by (simp add: run bc)
          then show ?thesis using pre0 qs(2) by blast
        next
          case (Inr ok)
          note bill = this
          show ?thesis
          proof (cases ok)
            case True
            let ?w4 = "emit (CallOnSuccess ?fd) ?w3"
            have run: "snd (startWebScraperPipeline env j) = saveJob env ?fd ?w4"
              using None \<open>snd (getDocuments env ?opts) = Inr ds\<close> False bill True
              by (simp add: startWebScraperPipeline_def runWebScraper_def Let_def pipelineParams_simps)
            obtain qs where qs: "calls (saveJob env ?fd ?w4) = calls ?w4 @ qs"
                "\<forall>x\<in>set qs. phase x = 2"
              using calls_saveJob by blast
            have "calls (snd (startWebScraperPipeline env j))
                = ?pre @ billing_calls env j @ (CallOnSuccess ?fd # qs)"
              using qs(1) w3 by (simp add: run bc calls_emit)
            moreover have "\<forall>x\<in>set (CallOnSuccess ?fd # qs). phase x = 2"
              using qs(2) by simp
            ultimately show ?thesis using pre0 by blast
          next
            case False
            have run: "snd (startWebScraperPipeline env j) = ?w3"
              using None \<open>snd (getDocuments env ?opts) = Inr ds\<close> \<open>ds \<noteq> []\<close> bill False
              by (simp add: startWebScraperPipeline_def runWebScraper_def Let_def pipelineParams_simps)
            have "calls (snd (startWebScraperPipeline env j)) = ?pre @ billing_calls env j @ []"
              using w3 by (simp add: run bc)
            moreover have "\<forall>x\<in>set ([]::effect list). phase x = 2" by simp
            ultimately show ?thesis using pre0 by blast
          qed
        qed
      qed
    qed
  qed
qed

lemma job_saveJob_plain:
  assumes "USE_DB_AUTHENTICATION env \<noteq> Some ''true''" and "\<not> moveToCompleted_throws env"
  shows "job (saveJob env r w) = (job w)\<lparr>jobState := Completed, returnvalue := Some r\<rparr>"
  using assms by (simp add: saveJob_def Let_def emit_def moveToCompleted_def)

lemma job_saveJob_db:
  assumes "USE_DB_AUTHENTICATION env = Some ''true''" and "\<not> moveToCompleted_throws env"
    and "supabase_update env (jobId (job w)) r = None"
  shows "job (saveJob env r w) = (job w)\<lparr>jobState := Completed, returnvalue := None\<rparr>"
    and "CallSupabaseUpdate (jobId (job w)) r \<in> set (calls (saveJob env r w))"
  using assms by (simp_all add: saveJob_def Let_def emit_def moveToCompleted_def)

lemma saveJob_first_call:
  "(USE_DB_AUTHENTICATION env \<noteq> Some ''true'' \<longrightarrow>
      CallMoveToCompleted (Some r) \<in> set (calls (saveJob env r w)))
   \<and> (USE_DB_AUTHENTICATION env = Some ''true'' \<longrightarrow>
      CallSupabaseUpdate (jobId (job w)) r \<in> set (calls (saveJob env r w)))"
  by (auto simp add: saveJob_def Let_def emit_def moveToCompleted_def split: option.split)

section \<open>The crawl executor\<close>

text \<open>
  C3. When the crawl pipeline completes with zero documents, \<open>runWebScraper\<close> returns
  \<open>success: true\<close>, the message \<open>"No pages found"\<close> and an empty document list,
  whatever the callbacks and the state are.
\<close>

theorem zero_documents_success:
  assumes "setOptions env (providerOptions p) = None"
      and "snd (getDocuments env (providerOptions p)) = Inr []"
  shows "fst (runWebScraper env p w) = \<lparr>success = True, message = ''No pages found'', docs = []\<rparr>"
  using assms by (simp add: runWebScraper_def Let_def)

theorem zero_documents_witness:
  "fst (runWebScraper (example_env [] True None)
          (pipelineParams (example_env [] True None) (example_job False))
          \<lparr>job = example_job False, partialDocs = [], calls = []\<rparr>)
     = \<lparr>success = True, message = ''No pages found'', docs = []\<rparr>"
  using zero_documents_success [of "example_env [] True None"
      "pipelineParams (example_env [] True None) (example_job False)"
      "\<lparr>job = example_job False, partialDocs = [], calls = []\<rparr>"]
  by (simp add: example_env_def)

text \<open>
  C4. The buffer \<open>partialDocs\<close> starts empty. After any sequence of progress events it
  holds at most 50 documents, namely the last 50 of the documents emitted so far, in the
  order of emission; and when a document arrives at a buffer of 50, the oldest entry is
  dropped and the new one is appended.
\<close>

theorem progress_buffer_bounded:
  "length (partialDocs (fold inProgress evs \<lparr>job = j, partialDocs = [], calls = cs\<rparr>)) \<le> 50
   \<and> partialDocs (fold inProgress evs \<lparr>job = j, partialDocs = [], calls = cs\<rparr>)
       = slice_neg 50 (List.map_filter currentDocument evs)
   \<and> (length (partialDocs w) = 50 \<longrightarrow>
        partialDocs (inProgress (pr\<lparr>currentDocument := Some d\<rparr>) w) = tl (partialDocs w) @ [d])"
proof (intro conjI impI)
  show "length (partialDocs (fold inProgress evs \<lparr>job = j, partialDocs = [], calls = cs\<rparr>)) \<le> 50"
    by (simp add: partialDocs_fold_inProgress length_slice_neg)
  show "partialDocs (fold inProgress evs \<lparr>job = j, partialDocs = [], calls = cs\<rparr>)
       = slice_neg 50 (List.map_filter currentDocument evs)"
    by (simp add: partialDocs_fold_inProgress)
next
  assume "length (partialDocs w) = 50"
  then show "partialDocs (inProgress (pr\<lparr>currentDocument := Some d\<rparr>) w) = tl (partialDocs w) @ [d]"
    by (cases "partialDocs w") (simp_all add: partialDocs_inProgress slice_neg_def)
qed

theorem progress_buffer_witness:
  "partialDocs (fold inProgress (map numbered_progress [1..<52])
      \<lparr>job = example_job False, partialDocs = [], calls = []\<rparr>) = map numbered_doc [2..<52]
   \<and> length (partialDocs \<lparr>job = example_job False, partialDocs = map numbered_doc [1..<51],
         calls = []\<rparr>) = 50
   \<and> partialDocs (inProgress (numbered_progress 51)
         \<lparr>job = example_job False, partialDocs = map numbered_doc [1..<51], calls = []\<rparr>)
       = map numbered_doc [2..<52]"
proof -
  have mf: "List.map_filter currentDocument (map numbered_progress [1..<52]) = map numbered_doc [1..<52]"
    by (simp add: List.map_filter_def numbered_progress_def comp_def)
  have sl: "slice_neg 50 (map numbered_doc [1..<52]) = map numbered_doc [2..<52]"
  proof -
    have "drop (Suc 0) [1..<52] = [2..<52]"
      using drop_upt [of 1 1 52] by (simp add: numeral_2_eq_2 del: upt_rec_numeral)
    then show ?thesis
      by (simp add: slice_neg_def drop_map del: upt_rec_numeral)
  qed
  have u1: "[1..<51] = 1 # [2..<51]"
    by (simp add: upt_conv_Cons)
  have u2: "[2..<52] = [2..<51] @ [51]"
    using upt_Suc_append [of 2 51] by simp
  have tl: "tl (map numbered_doc [1..<51]) @ [numbered_doc 51] = map numbered_doc [2..<52]"
    unfolding u1 u2 by simp
  have np: "numbered_progress 51\<lparr>currentDocument := Some (numbered_doc 51)\<rparr> = numbered_progress 51"
    by (simp add: numbered_progress_def)
  note T = progress_buffer_bounded [where evs = "map numbered_progress [1..<52]"
        and j = "example_job False" and cs = "[]"
        and w = "\<lparr>job = example_job False, partialDocs = map numbered_doc [1..<51], calls = []\<rparr>"
        and pr = "numbered_progress 51" and d = "numbered_doc 51"]
  have a: "partialDocs (fold inProgress (map numbered_progress [1..<52])
      \<lparr>job = example_job False, partialDocs = [], calls = []\<rparr>) = map numbered_doc [2..<52]"
    using T unfolding mf sl by blast
  have len: "length (partialDocs \<lparr>job = example_job False, partialDocs = map numbered_doc [1..<51],
         calls = []\<rparr>) = 50"
    by simp
  have c: "partialDocs (inProgress (numbered_progress 51)
         \<lparr>job = example_job False, partialDocs = map numbered_doc [1..<51], calls = []\<rparr>)
       = tl (partialDocs \<lparr>job = example_job False, partialDocs = map numbered_doc [1..<51],
         calls = []\<rparr>) @ [numbered_doc 51]"
    using T len unfolding np by blast
  have d: "tl (partialDocs \<lparr>job = example_job False, partialDocs = map numbered_doc [1..<51],
         calls = []\<rparr>) @ [numbered_doc 51] = map numbered_doc [2..<52]"
    using tl by simp
  show ?thesis
    using a len c d by (simp only:)
qed



text \<open>
  C10. When \<open>returnOnlyUrls\<close> is set and the pipeline returns a non-empty list,
  \<open>billTeam\<close> is called with the number of all documents (no document is filtered out,
  blank ones included), and a document without \<open>metadata.sourceURL\<close> yields the entry
  \<open>undefined\<close> at its position.
\<close>

theorem urls_only_skips_content_filter:
  assumes so: "setOptions env (providerOptions (pipelineParams env j)) = None"
    and gd: "snd (getDocuments env (providerOptions (pipelineParams env j))) = Inr ds"
    and ne: "ds \<noteq> []"
    and ou: "returnOnlyUrls (crawlerOptions (jobData j))"
  shows "CallBillTeam (team_id (jobData j)) (length ds)
           \<in> set (calls (snd (startWebScraperPipeline env j)))
       \<and> length (filterDocs (crawlerOptions (jobData j)) ds) = length ds
       \<and> (\<forall>i<length ds. sourceURL (metadata (ds ! i)) = None \<longrightarrow>
              filterDocs (crawlerOptions (jobData j)) ds ! i = Undefined)
       \<and> (billTeam env (team_id (jobData j)) (length ds) = Inr True \<longrightarrow>
              docs (fst (startWebScraperPipeline env j)) = filterDocs (crawlerOptions (jobData j)) ds)"
proof -
  let ?opts = "providerOptions (pipelineParams env j)"
  let ?w1 = "emit (CallGetDocuments ?opts)
               (emit (CallSetOptions ?opts) \<lparr>job = j, partialDocs = [], calls = []\<rparr>)"
  let ?w2 = "fold inProgress (fst (getDocuments env ?opts)) ?w1"
  let ?w3 = "emit (CallBillTeam (team_id (jobData j)) (length ds)) ?w2"
  let ?fd = "filterDocs (crawlerOptions (jobData j)) ds"
  have len: "length ?fd = length ds"
    using ou by (simp add: filterDocs_def)
  have "\<exists>qs. calls (snd (startWebScraperPipeline env j)) = calls ?w3 @ qs"
  proof (cases "billTeam env (team_id (jobData j)) (length ds)")
    case (Inl e)
    then have "snd (startWebScraperPipeline env j)
        = onError env e (emit (CallOnError e) (emit (ConsoleError ''Error running web scraper'') ?w3))"
      using so gd ne len
      by (simp add: startWebScraperPipeline_def runWebScraper_def Let_def pipelineParams_simps
          catch_block_def)
    moreover obtain qs where "calls (onError env e (emit (CallOnError e)
          (emit (ConsoleError ''Error running web scraper'') ?w3)))
        = calls (emit (CallOnError e) (emit (ConsoleError ''Error running web scraper'') ?w3)) @ qs"
      using calls_onError by blast
    ultimately show ?thesis by (simp add: calls_emit)
  next
    case (Inr ok)
    show ?thesis
    proof (cases ok)
      case True
      with Inr have "snd (startWebScraperPipeline env j)
          = saveJob env ?fd (emit (CallOnSuccess ?fd) ?w3)"
        using so gd ne len
        by (simp add: startWebScraperPipeline_def runWebScraper_def Let_def pipelineParams_simps)
      moreover obtain qs where "calls (saveJob env ?fd (emit (CallOnSuccess ?fd) ?w3))
          = calls (emit (CallOnSuccess ?fd) ?w3) @ qs"
        using calls_saveJob by blast
      ultimately show ?thesis by (simp add: calls_emit)
    next
      case False
      with Inr have "snd (startWebScraperPipeline env j) = ?w3"
        using so gd ne len
        by (simp add: startWebScraperPipeline_def runWebScraper_def Let_def pipelineParams_simps)
      then show ?thesis by simp
    qed
  qed
  then have bill: "CallBillTeam (team_id (jobData j)) (length ds)
           \<in> set (calls (snd (startWebScraperPipeline env j)))"
    by (auto simp add: calls_emit)
  have undef: "\<forall>i<length ds. sourceURL (metadata (ds ! i)) = None \<longrightarrow> ?fd ! i = Undefined"
    using ou by (simp add: filterDocs_def toUrlEntry_def)
  have res: "docs (fst (startWebScraperPipeline env j)) = ?fd"
    if "billTeam env (team_id (jobData j)) (length ds) = Inr True"
    using that so gd ne len
    by (simp add: startWebScraperPipeline_def runWebScraper_def Let_def pipelineParams_simps)
  show ?thesis using bill len undef res by blast
qed

theorem urls_only_witness:
  "CallBillTeam ''team'' 2
     \<in> set (calls (snd (startWebScraperPipeline (example_env [doc_page, doc_blank] True None)
         (example_job True))))
   \<and> docs (fst (startWebScraperPipeline (example_env [doc_page, doc_blank] True None)
         (example_job True))) ! 1 = Undefined"
proof -
  let ?env = "example_env [doc_page, doc_blank] True None"
  let ?ds = "[doc_page, doc_blank]"
  let ?fd = "filterDocs (crawlerOptions (jobData (example_job True))) ?ds"
  have j: "team_id (jobData (example_job True)) = ''team''"
    and ou: "returnOnlyUrls (crawlerOptions (jobData (example_job True)))"
    by (simp_all add: example_job_def)
  have a: "setOptions ?env opts = None" "snd (getDocuments ?env opts) = Inr ?ds"
    "billTeam ?env t n = Inr True" for opts t n
    by (simp_all add: example_env_def)
  have b: "sourceURL (metadata (?ds ! 1)) = None"
    by (simp add: doc_blank_def)
  have T: "CallBillTeam (team_id (jobData (example_job True))) (length ?ds)
           \<in> set (calls (snd (startWebScraperPipeline ?env (example_job True))))
       \<and> length ?fd = length ?ds
       \<and> (\<forall>i<length ?ds. sourceURL (metadata (?ds ! i)) = None \<longrightarrow> ?fd ! i = Undefined)
       \<and> (billTeam ?env (team_id (jobData (example_job True))) (length ?ds) = Inr True \<longrightarrow>
              docs (fst (startWebScraperPipeline ?env (example_job True))) = ?fd)"
    by (rule urls_only_skips_content_filter) (simp_all add: a ou)
  have l2: "length ?ds = 2" by simp
  have bill: "CallBillTeam ''team'' 2
      \<in> set (calls (snd (startWebScraperPipeline ?env (example_job True))))"
    using T unfolding j l2 by blast
  have "\<forall>i<length ?ds. sourceURL (metadata (?ds ! i)) = None \<longrightarrow> ?fd ! i = Undefined"
    using T by blast
  then have "1 < length ?ds \<longrightarrow> sourceURL (metadata (?ds ! 1)) = None \<longrightarrow> ?fd ! 1 = Undefined"
    by (rule spec)
  then have u: "?fd ! 1 = Undefined" using b by simp
  have "docs (fst (startWebScraperPipeline ?env (example_job True))) = ?fd"
    using T a(3) by blast
  then show ?thesis using bill u by simp
qed

section \<open>The billing gate\<close>

text \<open>
  C1, as the code has it. When the pipeline returns a non-empty document list and
  \<open>billTeam\<close> answers without success, the result is \<open>success: false\<close> with the
  message \<open>"Failed to bill team, no subscription was found"\<close> and no documents. Neither
  \<open>onSuccess\<close> nor \<open>onError\<close> is called, so the state, the failure reason and the
  return value of the job stay as they were: no call of the third phase is made.
\<close>

theorem billing_rejection_reported:
  assumes so: "setOptions env (providerOptions (pipelineParams env j)) = None"
    and gd: "snd (getDocuments env (providerOptions (pipelineParams env j))) = Inr ds"
    and ne: "ds \<noteq> []"
    and bt: "billTeam env (team_id (jobData j))
               (length (filterDocs (crawlerOptions (jobData j)) ds)) = Inr False"
  shows "fst (startWebScraperPipeline env j)
           = \<lparr>success = False,
              message = ''Failed to bill team, no subscription was found'', docs = []\<rparr>
       \<and> jobState (job (snd (startWebScraperPipeline env j))) = jobState j
       \<and> failedReason (job (snd (startWebScraperPipeline env j))) = failedReason j
       \<and> returnvalue (job (snd (startWebScraperPipeline env j))) = returnvalue j
       \<and> (\<forall>e\<in>set (calls (snd (startWebScraperPipeline env j))). phase e \<noteq> 2)"
proof -
  let ?opts = "providerOptions (pipelineParams env j)"
  let ?w1 = "emit (CallGetDocuments ?opts)
               (emit (CallSetOptions ?opts) \<lparr>job = j, partialDocs = [], calls = []\<rparr>)"
  let ?w2 = "fold inProgress (fst (getDocuments env ?opts)) ?w1"
  let ?n = "length (filterDocs (crawlerOptions (jobData j)) ds)"
  have run: "startWebScraperPipeline env j
      = (\<lparr>success = False,
          message = ''Failed to bill team, no subscription was found'', docs = []\<rparr>,
         emit (CallBillTeam (team_id (jobData j)) ?n) ?w2)"
    using so gd ne bt
    by (simp add: startWebScraperPipeline_def runWebScraper_def Let_def pipelineParams_simps)
  obtain ps where ps: "calls ?w2 = calls ?w1 @ ps" "\<forall>e\<in>set ps. phase e = 0"
    using calls_fold_inProgress by blast
  have "\<forall>e\<in>set (calls (emit (CallBillTeam (team_id (jobData j)) ?n) ?w2)). phase e \<noteq> 2"
    using ps by (auto simp add: calls_emit)
  then show ?thesis
    by (simp add: run job_emit job_fold_inProgress)
qed

theorem billing_rejection_counterexample:
  "snd (getDocuments (example_env [doc_page] False None)
          (providerOptions (pipelineParams (example_env [doc_page] False None) (example_job False))))
     = Inr [doc_page]
   \<and> billTeam (example_env [doc_page] False None) ''team'' 1 = Inr False
   \<and> jobState (job (snd (startWebScraperPipeline (example_env [doc_page] False None)
         (example_job False)))) \<noteq> Failed"
  by (simp add: example_env_def example_job_def startWebScraperPipeline_def runWebScraper_def
      pipelineParams_def Let_def emit_def)

theorem billing_rejection_witness:
  "fst (startWebScraperPipeline (example_env [doc_page] False None) (example_job False))
           = \<lparr>success = False,
              message = ''Failed to bill team, no subscription was found'', docs = []\<rparr>
   \<and> jobState (job (snd (startWebScraperPipeline (example_env [doc_page] False None)
         (example_job False)))) = Active"
proof -
  have "fst (startWebScraperPipeline (example_env [doc_page] False None) (example_job False))
           = \<lparr>success = False,
              message = ''Failed to bill team, no subscription was found'', docs = []\<rparr>
   \<and> jobState (job (snd (startWebScraperPipeline (example_env [doc_page] False None)
         (example_job False)))) = jobState (example_job False)"
    using billing_rejection_reported [of "example_env [doc_page] False None" "example_job False"
        "[doc_page]"]
    by (simp add: example_env_def)
  then show ?thesis by (simp add: example_job_def)
qed

text \<open>
  C2, as the code has it. The calls of \<open>billTeam\<close> in one execution are exactly those
  of \<open>billing_calls\<close>: one call with the number of filtered documents when the pipeline
  returns a non-empty list, none when it throws or returns no document. There is never
  more than one, and the calls of an execution are ordered by phase: every call of the
  crawl precedes the billing, and every callback and state transition follows it.
\<close>

theorem billTeam_invocations:
  "filter is_billTeam (calls (snd (startWebScraperPipeline env j))) = billing_calls env j
   \<and> length (filter is_billTeam (calls (snd (startWebScraperPipeline env j)))) \<le> 1
   \<and> sorted (map phase (calls (snd (startWebScraperPipeline env j))))"
proof -
  obtain ps qs where c: "calls (snd (startWebScraperPipeline env j)) = ps @ billing_calls env j @ qs"
    and ps: "\<forall>x\<in>set ps. phase x = 0" and qs: "\<forall>x\<in>set qs. phase x = 2"
    using pipeline_calls by blast
  have fps: "filter is_billTeam ps = []" using ps by (simp add: is_billTeam_phase)
  have fqs: "filter is_billTeam qs = []" using qs by (simp add: is_billTeam_phase)
  have bphase: "\<forall>x\<in>set (billing_calls env j). phase x = 1"
    by (auto simp add: billing_calls_def split: option.split sum.split)
  then have fb: "filter is_billTeam (billing_calls env j) = billing_calls env j"
    by (simp add: is_billTeam_phase)
  have lb: "length (billing_calls env j) \<le> 1"
    by (simp add: billing_calls_def split: option.split sum.split)
  have srt: "sorted (map phase (ps @ billing_calls env j @ qs))"
    using ps qs bphase lb
    using sorted_map_const [OF ps] sorted_map_const [OF qs]
    by (cases "billing_calls env j") (auto simp add: sorted_append)
  show ?thesis
    using fps fqs fb lb srt by (simp add: c)
qed

theorem billTeam_invocations_counterexample:
  "snd (getDocuments (example_env [] True None)
          (providerOptions (pipelineParams (example_env [] True None) (example_job False))))
     = Inr []
   \<and> length (filter is_billTeam
        (calls (snd (startWebScraperPipeline (example_env [] True None) (example_job False))))) = 0"
  by (simp add: example_env_def startWebScraperPipeline_def runWebScraper_def
      pipelineParams_def Let_def emit_def)

theorem billTeam_invocations_witness:
  "filter is_billTeam
     (calls (snd (startWebScraperPipeline (example_env [doc_page] True None) (example_job False))))
     = [CallBillTeam ''team'' 1]
   \<and> sorted (map phase
       (calls (snd (startWebScraperPipeline (example_env [doc_page] True None) (example_job False)))))"
proof -
  have "billing_calls (example_env [doc_page] True None) (example_job False)
      = [CallBillTeam ''team'' 1]"
    by (simp add: billing_calls_def example_env_def example_job_def filterDocs_def doc_page_def
        trim_def isWhiteSpace_def)
  then show ?thesis
    using billTeam_invocations [of "example_env [doc_page] True None" "example_job False"]
    by simp
qed

text \<open>
  C5, as the code has it. When the pipeline returns a non-empty list and the billing
  succeeds, the result carries the filtered documents and \<open>onSuccess\<close>, that is
  \<open>saveJob\<close>, is called with them: \<open>saveJob\<close> calls \<open>moveToCompleted\<close> with the
  filtered documents when \<open>USE_DB_AUTHENTICATION\<close> is not \<open>"true"\<close>, and the database
  update with them when it is, whatever these calls then do. If \<open>USE_DB_AUTHENTICATION\<close>
  is not \<open>"true"\<close> and \<open>moveToCompleted\<close> does not throw, the job becomes completed with
  the filtered documents as its return value. If it is \<open>"true"\<close>, the database update
  succeeds and \<open>moveToCompleted\<close> does not throw, the filtered documents are written to the
  database and the job becomes completed with the return value \<open>null\<close>.
\<close>

theorem successful_job_completed:
  assumes so: "setOptions env (providerOptions (pipelineParams env j)) = None"
    and gd: "snd (getDocuments env (providerOptions (pipelineParams env j))) = Inr ds"
    and ne: "ds \<noteq> []"
    and bt: "billTeam env (team_id (jobData j))
               (length (filterDocs (crawlerOptions (jobData j)) ds)) = Inr True"
  shows "fst (startWebScraperPipeline env j)
           = \<lparr>success = True, message = [],
              docs = filterDocs (crawlerOptions (jobData j)) ds\<rparr>
       \<and> CallOnSuccess (filterDocs (crawlerOptions (jobData j)) ds)
            \<in> set (calls (snd (startWebScraperPipeline env j)))
       \<and> (USE_DB_AUTHENTICATION env \<noteq> Some ''true'' \<longrightarrow>
            CallMoveToCompleted (Some (filterDocs (crawlerOptions (jobData j)) ds))
              \<in> set (calls (snd (startWebScraperPipeline env j))))
       \<and> (USE_DB_AUTHENTICATION env = Some ''true'' \<longrightarrow>
            CallSupabaseUpdate (jobId j) (filterDocs (crawlerOptions (jobData j)) ds)
              \<in> set (calls (snd (startWebScraperPipeline env j))))
       \<and> (USE_DB_AUTHENTICATION env \<noteq> Some ''true'' \<and> \<not> moveToCompleted_throws env \<longrightarrow>
            jobState (job (snd (startWebScraperPipeline env j))) = Completed
          \<and> returnvalue (job (snd (startWebScraperPipeline env j)))
              = Some (filterDocs (crawlerOptions (jobData j)) ds))
       \<and> (USE_DB_AUTHENTICATION env = Some ''true'' \<and> \<not> moveToCompleted_throws env
          \<and> supabase_update env (jobId j) (filterDocs (crawlerOptions (jobData j)) ds) = None \<longrightarrow>
            jobState (job (snd (startWebScraperPipeline env j))) = Completed
          \<and> returnvalue (job (snd (startWebScraperPipeline env j))) = None
          \<and> CallSupabaseUpdate (jobId j) (filterDocs (crawlerOptions (jobData j)) ds)
              \<in> set (calls (snd (startWebScraperPipeline env j))))"
proof -
  let ?opts = "providerOptions (pipelineParams env j)"
  let ?fd = "filterDocs (crawlerOptions (jobData j)) ds"
  let ?w1 = "emit (CallGetDocuments ?opts)
               (emit (CallSetOptions ?opts) \<lparr>job = j, partialDocs = [], calls = []\<rparr>)"
  let ?w2 = "fold inProgress (fst (getDocuments env ?opts)) ?w1"
  let ?w4 = "emit (CallOnSuccess ?fd) (emit (CallBillTeam (team_id (jobData j)) (length ?fd)) ?w2)"
  have run: "startWebScraperPipeline env j
      = (\<lparr>success = True, message = [], docs = ?fd\<rparr>, saveJob env ?fd ?w4)"
    using so gd ne bt
    by (simp add: startWebScraperPipeline_def runWebScraper_def Let_def pipelineParams_simps)
  have id4: "jobId (job ?w4) = jobId j"
    by (simp add: job_emit job_fold_inProgress)
  obtain qs where qs: "calls (saveJob env ?fd ?w4) = calls ?w4 @ qs"
    using calls_saveJob by blast
  have called: "CallOnSuccess ?fd \<in> set (calls (saveJob env ?fd ?w4))"
    by (simp add: qs calls_emit)
  have first_plain: "CallMoveToCompleted (Some ?fd) \<in> set (calls (saveJob env ?fd ?w4))"
    if "USE_DB_AUTHENTICATION env \<noteq> Some ''true''"
    using saveJob_first_call [of env ?fd ?w4] that by simp
  have first_db: "CallSupabaseUpdate (jobId j) ?fd \<in> set (calls (saveJob env ?fd ?w4))"
    if "USE_DB_AUTHENTICATION env = Some ''true''"
    using saveJob_first_call [of env ?fd ?w4] that id4 by simp
  have plain: "jobState (job (saveJob env ?fd ?w4)) = Completed
      \<and> returnvalue (job (saveJob env ?fd ?w4)) = Some ?fd"
    if "USE_DB_AUTHENTICATION env \<noteq> Some ''true''" "\<not> moveToCompleted_throws env"
    using job_saveJob_plain [OF that, of ?fd ?w4] by simp
  have db: "jobState (job (saveJob env ?fd ?w4)) = Completed
      \<and> returnvalue (job (saveJob env ?fd ?w4)) = None"
    if "USE_DB_AUTHENTICATION env = Some ''true''" "\<not> moveToCompleted_throws env"
      "supabase_update env (jobId j) ?fd = None"
    using job_saveJob_db(1) [of env ?w4 ?fd] that id4 by simp
  show ?thesis
    using called first_plain first_db plain db by (simp add: run)
qed

theorem successful_job_counterexample:
  "fst (startWebScraperPipeline (example_env [doc_page] True (Some ''true'')) (example_job False))
     = \<lparr>success = True, message = [], docs = [DocEntry doc_page]\<rparr>
   \<and> returnvalue (job (snd (startWebScraperPipeline (example_env [doc_page] True (Some ''true''))
         (example_job False)))) \<noteq> Some [DocEntry doc_page]"
  by (simp add: example_env_def example_job_def startWebScraperPipeline_def runWebScraper_def
      pipelineParams_def Let_def emit_def saveJob_def moveToCompleted_def filterDocs_def
      doc_page_def trim_def isWhiteSpace_def)

theorem successful_job_witness:
  "jobState (job (snd (startWebScraperPipeline (example_env [doc_page] True None)
      (example_job False)))) = Completed
   \<and> returnvalue (job (snd (startWebScraperPipeline (example_env [doc_page] True None)
      (example_job False)))) = Some [DocEntry doc_page]
   \<and> jobState (job (snd (startWebScraperPipeline (example_env [doc_page] True (Some ''true''))
      (example_job False)))) = Completed
   \<and> returnvalue (job (snd (startWebScraperPipeline (example_env [doc_page] True (Some ''true''))
      (example_job False)))) = None"
proof -
  have fd: "filterDocs (crawlerOptions (jobData (example_job False))) [doc_page] = [DocEntry doc_page]"
    by (simp add: example_job_def filterDocs_def doc_page_def trim_def isWhiteSpace_def)
  show ?thesis
    using successful_job_completed [of "example_env [doc_page] True None" "example_job False"
        "[doc_page]"]
      successful_job_completed [of "example_env [doc_page] True (Some ''true'')" "example_job False"
        "[doc_page]"]
    by (simp add: fd example_env_def)
qed

section \<open>Recovery, cleanup and the worker pool\<close>

lemma run_steps_effect_job: "e \<in> set (run_steps thr i ss) \<Longrightarrow> effect_job e = Some i"
proof (induction ss)
  case Nil
  then show ?case by simp
next
  case (Cons s ss)
  then show ?case by (cases s) (auto split: if_splits)
qed

lemma reclaim_effect_job: "e \<in> set (reclaim env y) \<Longrightarrow> effect_job e = Some (jobId y)"
  unfolding reclaim_def by (rule run_steps_effect_job)

lemma filter_reclaim_same:
  "filter (\<lambda>e. effect_job e = Some (jobId y)) (reclaim env y) = reclaim env y"
  by (simp add: reclaim_effect_job)

lemma filter_reclaim_other:
  "jobId y \<noteq> i \<Longrightarrow> filter (\<lambda>e. effect_job e = Some i) (reclaim env y) = []"
  by (auto simp add: filter_empty_conv dest: reclaim_effect_job)

lemma filter_concat_none:
  "\<forall>y\<in>set jobs. jobId y \<noteq> i \<Longrightarrow>
   filter (\<lambda>e. effect_job e = Some i) (concat (map (reclaim env) jobs)) = []"
  by (induction jobs) (simp_all add: filter_reclaim_other)

lemma filter_concat_reclaim:
  "distinct (map jobId jobs) \<Longrightarrow> x \<in> set jobs \<Longrightarrow>
   filter (\<lambda>e. effect_job e = Some (jobId x)) (concat (map (reclaim env) jobs)) = reclaim env x"
proof (induction jobs)
  case Nil
  then show ?case by simp
next
  case (Cons a jobs)
  show ?case
  proof (cases "x = a")
    case True
    have "jobId a \<notin> jobId ` set jobs" using Cons.prems(1) by simp
    then have "\<forall>y\<in>set jobs. jobId y \<noteq> jobId a" by (metis imageI)
    then show ?thesis
      using True by (simp add: filter_reclaim_same filter_concat_none)
  next
    case False
    then have xin: "x \<in> set jobs" using Cons.prems(2) by simp
    moreover have "jobId a \<notin> jobId ` set jobs" using Cons.prems(1) by simp
    ultimately have "jobId a \<noteq> jobId x" by (metis imageI)
    then show ?thesis
      using Cons.IH xin Cons.prems(1) by (simp add: filter_reclaim_other)
  qed
qed

lemma reclaim_no_error:
  "reclaim_throws env x = None \<Longrightarrow>
   reclaim env x = [ClientDelLock (jobId x), CallTakeLock (jobId x),
                    CallJobMoveToFailed (jobId x) ''interrupted'', CallRemove (jobId x)]"
  by (simp add: reclaim_def)

lemma reclaim_error:
  "reclaim_throws env x = Some s \<Longrightarrow>
   reclaim env x = map (\<lambda>st. step_call st (jobId x))
                     (takeWhile (\<lambda>st. st \<noteq> s) [DelLock, TakeLock, MoveToFailed, Remove])
                   @ [step_call s (jobId x), ConsoleWarn (jobId x)]"
  by (cases s) (simp_all add: reclaim_def)

text \<open>
  C7. For a list of active jobs with distinct ids and any job \<open>x\<close> of it: the calls made
  on \<open>x\<close> by the handler are those of \<open>reclaim\<close> on \<open>x\<close> alone, whatever happens to the
  other jobs. Without an error these are: delete the lock key, take the lock, move to
  failed with the message \<open>"interrupted"\<close>, remove. With an error at a step, the calls up
  to that step are made and a warning is logged. After the calls on all jobs, one
  \<open>addBulk\<close> submits every job of the list with its payload and its id.
\<close>

theorem reclaim_and_requeue:
  assumes ga: "getActive env = Inr jobs"
    and d: "distinct (map jobId jobs)"
    and x: "x \<in> set jobs"
  shows "filter (\<lambda>e. effect_job e = Some (jobId x)) (snd (unpause env)) = reclaim env x
       \<and> (reclaim_throws env x = None \<longrightarrow>
            reclaim env x = [ClientDelLock (jobId x), CallTakeLock (jobId x),
                             CallJobMoveToFailed (jobId x) ''interrupted'', CallRemove (jobId x)])
       \<and> (\<forall>s. reclaim_throws env x = Some s \<longrightarrow>
            reclaim env x = map (\<lambda>st. step_call st (jobId x))
                              (takeWhile (\<lambda>st. st \<noteq> s) [DelLock, TakeLock, MoveToFailed, Remove])
                            @ [step_call s (jobId x), ConsoleWarn (jobId x)])
       \<and> (\<exists>post. snd (unpause env)
              = concat (map (reclaim env) jobs)
                @ CallAddBulk (map (\<lambda>y. (jobData y, jobId y)) jobs) # post
            \<and> (\<forall>e\<in>set post. effect_job e = None))
       \<and> (jobData x, jobId x) \<in> set (map (\<lambda>y. (jobData y, jobId y)) jobs)"
proof -
  let ?rq = "map (\<lambda>y. (jobData y, jobId y)) jobs"
  have ne: "jobs \<noteq> []" using x by auto
  have shape: "\<exists>post. snd (unpause env) = concat (map (reclaim env) jobs) @ CallAddBulk ?rq # post
      \<and> (\<forall>e\<in>set post. effect_job e = None)"
    using ga ne by (auto simp add: unpause_def Let_def split: option.split)
  then obtain post where post: "snd (unpause env) = concat (map (reclaim env) jobs) @ CallAddBulk ?rq # post"
      "\<forall>e\<in>set post. effect_job e = None"
    by blast
  have "filter (\<lambda>e. effect_job e = Some (jobId x)) post = []"
    using post(2) by (simp add: filter_empty_conv)
  then have proj: "filter (\<lambda>e. effect_job e = Some (jobId x)) (snd (unpause env)) = reclaim env x"
    using filter_concat_reclaim [OF d x] by (simp add: post(1))
  have rq: "(jobData x, jobId x) \<in> set ?rq" using x by auto
  show ?thesis
    using proj shape rq reclaim_no_error reclaim_error by blast
qed

theorem reclaim_witness:
  "filter (\<lambda>e. effect_job e = Some ''b'') (snd (unpause example_queue))
     = [ClientDelLock ''b'', CallTakeLock ''b'', CallJobMoveToFailed ''b'' ''interrupted'',
        CallRemove ''b'']
   \<and> filter (\<lambda>e. effect_job e = Some ''a'') (snd (unpause example_queue))
     = [ClientDelLock ''a'', CallTakeLock ''a'', ConsoleWarn ''a'']
   \<and> CallAddBulk [(jobData (queue_job ''a'' None), ''a''), (jobData (queue_job ''b'' None), ''b'')]
       \<in> set (snd (unpause example_queue))"
proof -
  let ?jobs = "[queue_job ''a'' None, queue_job ''b'' None]"
  have ga: "getActive example_queue = Inr ?jobs" by (simp add: example_queue_def)
  have d: "distinct (map jobId ?jobs)" by (simp add: queue_job_def)
  have ia: "jobId (queue_job ''a'' None) = ''a''" and ib: "jobId (queue_job ''b'' None) = ''b''"
    by (simp_all add: queue_job_def)
  have ta: "reclaim_throws example_queue (queue_job ''a'' None) = Some TakeLock"
    and tb: "reclaim_throws example_queue (queue_job ''b'' None) = None"
    by (simp_all add: example_queue_def queue_job_def)
  have A: "filter (\<lambda>e. effect_job e = Some ''a'') (snd (unpause example_queue))
      = [ClientDelLock ''a'', CallTakeLock ''a'', ConsoleWarn ''a'']"
    using reclaim_and_requeue [OF ga d, of "queue_job ''a'' None"] ta by (simp add: ia)
  have B: "filter (\<lambda>e. effect_job e = Some ''b'') (snd (unpause example_queue))
      = [ClientDelLock ''b'', CallTakeLock ''b'', CallJobMoveToFailed ''b'' ''interrupted'',
        CallRemove ''b'']"
    using reclaim_and_requeue [OF ga d, of "queue_job ''b'' None"] tb by (simp add: ib)
  have C: "CallAddBulk [(jobData (queue_job ''a'' None), ''a''), (jobData (queue_job ''b'' None), ''b'')]
       \<in> set (snd (unpause example_queue))"
    using reclaim_and_requeue [OF ga d, of "queue_job ''b'' None"] by (auto simp add: ia ib)
  show ?thesis using A B C by simp
qed

lemma before24h_sound:
  "j \<in> set (before24h now k js) \<Longrightarrow>
     j \<in> set js \<and> (\<exists>t i. finishedOn j = Some t \<and> t < now i - 86400000)"
proof (induction js arbitrary: k)
  case Nil
  then show ?case by simp
next
  case (Cons a js)
  then show ?case
    by (auto split: if_splits option.splits)
qed

lemma remove_loop_subset: "set (snd (remove_loop thr k js)) \<subseteq> set js"
  by (induction js arbitrary: k) auto

lemma all_flat_Inr:
  "all_flat rs = Inr xs \<Longrightarrow> x \<in> set xs \<Longrightarrow> \<exists>ys. Inr ys \<in> set rs \<and> x \<in> set ys"
proof (induction rs arbitrary: xs rule: all_flat.induct)
  case 1
  then show ?case by simp
next
  case (2 e rs)
  then show ?case by simp
next
  case (3 zs rs)
  then show ?case
    by (fastforce split: sum.splits)
qed

text \<open>
  C8. Every job the cleanup removes was returned by one of the nine requests for
  completed jobs and has a \<open>finishedOn\<close> strictly below a reading of the clock minus
  24 hours. A job whose \<open>finishedOn\<close> is at least the clock minus 24 hours at every
  reading is never removed.
\<close>

theorem cleanup_removes_only_old_jobs:
  "(\<forall>j\<in>set (snd (clean_before_24h_complete_jobs env)).
       (\<exists>i<9. \<exists>js. getJobs env [Completed] (i * 10) (i * 10 + 10) True = Inr js \<and> j \<in> set js)
     \<and> (\<exists>t k. finishedOn j = Some t \<and> t < date_now env k - 24 * 60 * 60 * 1000))
   \<and> (\<forall>j t. finishedOn j = Some t \<and> (\<forall>k. date_now env k - 24 * 60 * 60 * 1000 \<le> t) \<longrightarrow>
         j \<notin> set (snd (clean_before_24h_complete_jobs env)))"
proof -
  let ?batches = "map (\<lambda>i. getJobs env [Completed] (i * 10) (i * 10 + 10) True) [0..<9]"
  have main: "(\<exists>i<9. \<exists>js. getJobs env [Completed] (i * 10) (i * 10 + 10) True = Inr js \<and> j \<in> set js)
     \<and> (\<exists>t k. finishedOn j = Some t \<and> t < date_now env k - 24 * 60 * 60 * 1000)"
    if j: "j \<in> set (snd (clean_before_24h_complete_jobs env))" for j
  proof (cases "all_flat ?batches")
    case (Inl e)
    with j show ?thesis by (simp add: clean_before_24h_complete_jobs_def)
  next
    case (Inr completedJobs)
    with j have "j \<in> set (snd (remove_loop (remove_throws env) 0
        (before24h (date_now env) 0 completedJobs)))"
      by (simp add: clean_before_24h_complete_jobs_def Let_def)
    then have jb: "j \<in> set (before24h (date_now env) 0 completedJobs)"
      using remove_loop_subset by blast
    then have jc: "j \<in> set completedJobs"
      and old: "\<exists>t k. finishedOn j = Some t \<and> t < date_now env k - 86400000"
      using before24h_sound by blast+
    obtain ys where ys: "Inr ys \<in> set ?batches" "j \<in> set ys"
      using all_flat_Inr [OF Inr jc] by blast
    then obtain i where "i < 9" "getJobs env [Completed] (i * 10) (i * 10 + 10) True = Inr ys"
      by auto
    with ys(2) old show ?thesis by auto
  qed
  have keep: "j \<notin> set (snd (clean_before_24h_complete_jobs env))"
    if "finishedOn j = Some t" "\<forall>k. date_now env k - 24 * 60 * 60 * 1000 \<le> t" for j t
  proof
    assume "j \<in> set (snd (clean_before_24h_complete_jobs env))"
    then obtain t' k where t': "finishedOn j = Some t'" "t' < date_now env k - 24 * 60 * 60 * 1000"
      using main by blast
    have "date_now env k - 24 * 60 * 60 * 1000 \<le> t" using that(2) by (rule spec)
    moreover have "t' = t" using that(1) t'(1) by simp
    ultimately show False using t'(2) by linarith
  qed
  show ?thesis using main keep by blast
qed

theorem cleanup_witness:
  "snd (clean_before_24h_complete_jobs example_queue)
     = [queue_job ''old'' (Some (1700000000000 - 86400001))]
   \<and> queue_job ''recent'' (Some (1700000000000 - 86340000))
       \<notin> set (snd (clean_before_24h_complete_jobs example_queue))
   \<and> queue_job ''edge'' (Some (1700000000000 - 86400000))
       \<notin> set (snd (clean_before_24h_complete_jobs example_queue))"
proof -
  have run: "snd (clean_before_24h_complete_jobs example_queue)
     = [queue_job ''old'' (Some (1700000000000 - 86400001))]"
    by (simp add: clean_before_24h_complete_jobs_def example_queue_def Let_def upt_rec
        queue_job_def)
  have r: "finishedOn (queue_job ''recent'' (Some (1700000000000 - 86340000)))
      = Some (1700000000000 - 86340000)"
    and e: "finishedOn (queue_job ''edge'' (Some (1700000000000 - 86400000)))
      = Some (1700000000000 - 86400000)"
    by (simp_all add: queue_job_def)
  have n: "\<forall>k. date_now example_queue k - 24 * 60 * 60 * 1000 \<le> 1700000000000 - 86340000"
    "\<forall>k. date_now example_queue k - 24 * 60 * 60 * 1000 \<le> 1700000000000 - 86400000"
    by (simp_all add: example_queue_def)
  show ?thesis
    using cleanup_removes_only_old_jobs [of example_queue] r e n run by blast
qed

text \<open>
  C9, as the code has it. An exit event with an exit code makes the master fork exactly
  one more worker, as the last thing it does; an exit event without an exit code (the
  worker was ended by a signal) makes the master do nothing.
\<close>

theorem worker_exit_replacement:
  "(exit_code ev \<noteq> None \<longrightarrow> forks (on_exit ev effs) = forks effs + 1
       \<and> last (on_exit ev effs) = Fork)
   \<and> (exit_code ev = None \<longrightarrow> on_exit ev effs = effs)"
  by (simp add: on_exit_def forks_def)

theorem worker_exit_counterexample:
  "forks (on_exit \<lparr>worker_pid = 7, exit_code = None, exit_signal = Some ''SIGKILL''\<rparr>
            (master_start None 2))
     = forks (master_start None 2)"
  by (simp add: on_exit_def)

theorem worker_exit_witness:
  "exit_code \<lparr>worker_pid = 7, exit_code = Some 1, exit_signal = None\<rparr> \<noteq> None
   \<and> forks (on_exit \<lparr>worker_pid = 7, exit_code = Some 1, exit_signal = None\<rparr> (master_start None 2))
       = forks (master_start None 2) + 1
   \<and> exit_code \<lparr>worker_pid = 7, exit_code = None, exit_signal = Some ''SIGKILL''\<rparr> = None
   \<and> on_exit \<lparr>worker_pid = 7, exit_code = None, exit_signal = Some ''SIGKILL''\<rparr> (master_start None 2)
       = master_start None 2"
  using worker_exit_replacement [of "\<lparr>worker_pid = 7, exit_code = Some 1, exit_signal = None\<rparr>"
      "master_start None 2"]
    worker_exit_replacement [of "\<lparr>worker_pid = 7, exit_code = None, exit_signal = Some ''SIGKILL''\<rparr>"
      "master_start None 2"]
  by simp

end
